theory Spec2Isabelle
  imports Complex_Main "HOL-Library.Word"
begin

chapter \<open>The model\<close>

section \<open>Views and boxes (view.hpp, box.hpp, box.cpp)\<close>

text \<open>
  A \<open>View*\<close> is modelled by the identity of the object it points to; \<open>nullptr\<close> is
  \<open>None\<close>. \<open>size_t\<close> is the 64-bit unsigned type of the target platform.
\<close>

type_synonym ptr = nat

type_synonym size_t = "64 word"

datatype FocusDirection = UP | DOWN | LEFT | RIGHT

datatype Axis = ROW | COLUMN

datatype error = NullPointer | OutOfRange

text \<open>
  The view tree. \<open>View\<close> stands for every view that is not a \<open>Box\<close>: the base class
  answers \<open>nullptr\<close> to \<open>getDefaultFocus\<close> (view.hpp), a subclass outside these sources
  answers what its override returns, which is the field \<open>defaultFocus\<close>.
  \<open>parentUserdata\<close> is the \<open>void*\<close> set by \<open>setParent\<close>: \<open>None\<close> is \<open>nullptr\<close>,
  \<open>Some i\<close> points to the \<open>size_t\<close> that \<open>Box::addView\<close> allocated.
\<close>

datatype view =
    View (self: ptr) (parentUserdata: "size_t option") (defaultFocus: "ptr option")
  | Box (self: ptr) (parentUserdata: "size_t option") (axis: Axis)
        (children: "view list") (defaultFocusedIndex: size_t)

text \<open>\<open>children.size()\<close>, a \<open>size_t\<close>.\<close>

definition size_of :: "view list \<Rightarrow> size_t" where
  "size_of cs = of_nat (length cs)"

text \<open>\<open>View::setParent\<close> (the parent pointer itself is not part of the model).\<close>

fun setParent :: "view \<Rightarrow> size_t option \<Rightarrow> view" where
  "setParent (View p ud a) ud' = View p ud' a"
| "setParent (Box p ud ax cs dfi) ud' = Box p ud' ax cs dfi"

text \<open>\<open>Box::Box(Axis)\<close>: no children, \<open>defaultFocusedIndex = 0\<close>.\<close>

definition new_Box :: "ptr \<Rightarrow> Axis \<Rightarrow> view" where
  "new_Box p ax = Box p None ax [] 0"

text \<open>
  \<open>Box::addView\<close>: the child is appended and receives its position as parent user data.
  The position is the child count of the layout node, which mirrors \<open>children\<close>. On a
  view that is not a box there is no such method; the model leaves it unchanged.
\<close>

fun addView :: "view \<Rightarrow> view \<Rightarrow> view" where
  "addView (Box p ud ax cs dfi) v = Box p ud ax (cs @ [setParent v (Some (size_of cs))]) dfi"
| "addView (View p ud a) v = View p ud a"

text \<open>
  \<open>View::getDefaultFocus\<close> and its override \<open>Box::getDefaultFocus\<close>. The second function
  is the fallback loop \<open>for (size_t i = 0; i < children.size(); i++)\<close>, started at \<open>i\<close>.
  Both reads of \<open>children\<close> are under the guard \<open>index < children.size()\<close>.
\<close>

function getDefaultFocus :: "view \<Rightarrow> ptr option"
  and getDefaultFocus_scan :: "view list \<Rightarrow> size_t \<Rightarrow> ptr option" where
  "getDefaultFocus (View p ud a) = a"
| "getDefaultFocus (Box p ud ax cs dfi) =
     (case (if dfi < size_of cs then getDefaultFocus (cs ! unat dfi) else None) of
        Some newFocus \<Rightarrow> Some newFocus
      | None \<Rightarrow> getDefaultFocus_scan cs 0)"
| "getDefaultFocus_scan cs i =
     (if i < size_of cs
      then (case getDefaultFocus (cs ! unat i) of
              Some newFocus \<Rightarrow> Some newFocus
            | None \<Rightarrow> getDefaultFocus_scan cs (i + 1))
      else None)"
  by pat_completeness auto

termination getDefaultFocus
proof -
  have bound: "unat i < length cs" if "i < size_of cs" for i and cs :: "view list"
  proof -
    from that have "unat i < unat (of_nat (length cs) :: size_t)"
      by (simp add: size_of_def word_less_nat_alt)
    also have "\<dots> \<le> length cs"
      by (simp add: unat_of_nat)
    finally show ?thesis .
  qed
  have smaller: "size (cs ! k) < size_list size cs" if "k < length cs"
    for k and cs :: "view list"
    using that
  proof (induction cs arbitrary: k)
    case Nil
    then show ?case by simp
  next
    case (Cons c cs)
    show ?case
    proof (cases k)
      case 0
      then show ?thesis by simp
    next
      case (Suc j)
      with Cons.prems have "j < length cs" by simp
      from Cons.IH [OF this] Suc show ?thesis by simp
    qed
  qed
  have succ: "unat (i + 1) = Suc (unat i)" if "i < n" for i n :: size_t
  proof -
    have "\<not> (- 1 :: size_t) < n" by simp
    with that have "i \<noteq> - 1" by auto
    then have "1 + i \<noteq> 0" by (simp add: eq_neg_iff_add_eq_0 add.commute)
    then have "unat (1 + i) = Suc (unat i)" by (rule unatSuc)
    then show ?thesis by (simp add: add.commute)
  qed
  show ?thesis
  proof (relation "measures
      [\<lambda>x. case x of Inl v \<Rightarrow> size v | Inr (cs, i) \<Rightarrow> size_list size cs,
       \<lambda>x. case x of Inl v \<Rightarrow> 0 | Inr (cs, i) \<Rightarrow> unat (size_of cs) - unat i]",
      goal_cases)
    case 1
    show ?case by simp
  next
    case (2 p ud ax cs dfi)
    then show ?case
      using smaller [OF bound, of dfi cs] by simp
  next
    case (3 p ud ax cs dfi)
    show ?case by simp
  next
    case (4 cs i)
    then show ?case
      using smaller [OF bound, of i cs] by simp
  next
    case (5 cs i)
    then show ?case
      using succ [of i "size_of cs"] by (simp add: word_less_nat_alt)
  qed
qed

declare getDefaultFocus_scan.simps [simp del]

text \<open>
  The scan of \<open>Box::getNextFocus\<close>:
  \<^verbatim>\<open>while (!currentFocus && currentFocusIndex >= 0 && currentFocusIndex < children.size())\<close>.
  \<open>offset\<close> and \<open>currentFocusIndex\<close> are \<open>size_t\<close>, so the addition wraps. The vector's
  \<open>operator[]\<close> is unchecked; a read at or beyond the length is the error \<open>OutOfRange\<close>.
  The loop is a partial function: \<open>None\<close> is "does not return".
\<close>

partial_function (option) getNextFocus_loop ::
  "view list \<Rightarrow> size_t \<Rightarrow> ptr option \<Rightarrow> size_t \<Rightarrow> (error + ptr option) option" where
  "getNextFocus_loop cs offset currentFocus currentFocusIndex =
     (if currentFocus = None \<and> 0 \<le> currentFocusIndex \<and> currentFocusIndex < size_of cs
      then (if unat currentFocusIndex < length cs
            then getNextFocus_loop cs offset
                   (getDefaultFocus (cs ! unat currentFocusIndex)) (currentFocusIndex + offset)
            else Some (Inl OutOfRange))
      else Some (Inr currentFocus))"

text \<open>
  \<open>View::getNextFocus\<close> (returns \<open>nullptr\<close>) and \<open>Box::getNextFocus\<close>. The parent user
  data of \<open>currentView\<close> is dereferenced only after the axis gate.
\<close>

fun getNextFocus :: "view \<Rightarrow> FocusDirection \<Rightarrow> view \<Rightarrow> (error + ptr option) option" where
  "getNextFocus (View p ud a) direction currentView = Some (Inr None)"
| "getNextFocus (Box p ud ax cs dfi) direction currentView =
     (if (ax = ROW \<and> direction \<noteq> LEFT \<and> direction \<noteq> RIGHT)
         \<or> (ax = COLUMN \<and> direction \<noteq> UP \<and> direction \<noteq> DOWN)
      then Some (Inr None)
      else
        let offset = (if (ax = ROW \<and> direction = LEFT) \<or> (ax = COLUMN \<and> direction = UP)
                      then - 1 else 1 :: size_t)
        in (case parentUserdata currentView of
              None \<Rightarrow> Some (Inl NullPointer)
            | Some position \<Rightarrow> getNextFocus_loop cs offset None (position + offset)))"

text \<open>The first answer that is not \<open>nullptr\<close> in a sequence of answers, in order.\<close>

fun first_accepting :: "'a option list \<Rightarrow> 'a option" where
  "first_accepting [] = None"
| "first_accepting (r # rs) = (case r of Some v \<Rightarrow> Some v | None \<Rightarrow> first_accepting rs)"

section \<open>Drawing a view (view.cpp, View::frame)\<close>

datatype Visibility = VISIBLE | INVISIBLE | GONE

type_synonym Theme = nat

text \<open>
  What \<open>frame\<close> does to the frame context, in order: the calls on the graphics context
  \<open>ctx->vg\<close>, the calls of the view's own drawing methods (each one entry, with its
  arguments), and the writes to \<open>ctx->theme\<close>.
\<close>

datatype effect =
    NvgSave
  | NvgRestore
  | NvgIntersectScissor real real real real
  | SetTheme Theme
  | DrawBackground
  | DrawHighlight Theme real bool
  | Draw real real real real
  | DrawBorder real real real real

record FrameContext =
  theme :: Theme
  effects :: "effect list"

text \<open>
  The members of \<open>View\<close> that \<open>frame\<close> reads. \<open>themeOverride\<close> is a pointer (\<open>None\<close> is
  \<open>nullptr\<close>); the geometry getters and the virtual \<open>isHighlightBackgroundEnabled\<close> are
  given by their results; \<open>float\<close> is modelled by \<open>real\<close>.
\<close>

record drawn_view =
  visibility :: Visibility
  themeOverride :: "Theme option"
  alpha :: real
  collapseState :: real
  highlightAlpha :: real
  isHighlightBackgroundEnabled :: bool
  getX :: real
  getY :: real
  getWidth :: real
  getHeight :: real

definition emit :: "effect \<Rightarrow> FrameContext \<Rightarrow> FrameContext" where
  "emit e ctx = ctx\<lparr>effects := effects ctx @ [e]\<rparr>"

definition set_theme :: "Theme \<Rightarrow> FrameContext \<Rightarrow> FrameContext" where
  "set_theme t ctx = emit (SetTheme t) (ctx\<lparr>theme := t\<rparr>)"

text \<open>\<open>View::frame\<close>, built without \<open>BRLS_WIREFRAME\<close>.\<close>

definition frame :: "drawn_view \<Rightarrow> FrameContext \<Rightarrow> FrameContext" where
  "frame v ctx0 =
     (if visibility v \<noteq> VISIBLE then ctx0
      else
        let oldTheme = theme ctx0;
            ctx = emit NvgSave ctx0;
            ctx = (case themeOverride v of Some t \<Rightarrow> set_theme t ctx | None \<Rightarrow> ctx);
            x = getX v; y = getY v; width = getWidth v; height = getHeight v;
            ctx =
              (if alpha v > 0 \<and> collapseState v \<noteq> 0 then
                 let ctx = emit DrawBackground ctx;
                     ctx = (if highlightAlpha v > 0 \<and> isHighlightBackgroundEnabled v
                            then emit (DrawHighlight (theme ctx) (highlightAlpha v) True) ctx
                            else ctx);
                     ctx = (if collapseState v < 1
                            then emit (NvgIntersectScissor x y width (height * collapseState v))
                                   (emit NvgSave ctx)
                            else ctx);
                     ctx = emit (Draw x y width height) ctx;
                     ctx = (if highlightAlpha v > 0
                            then emit (DrawHighlight (theme ctx) (highlightAlpha v) False) ctx
                            else ctx);
                     ctx = emit (DrawBorder x y width height) ctx;
                     ctx = (if collapseState v < 1 then emit NvgRestore ctx else ctx)
                 in ctx
               else ctx);
            ctx = (case themeOverride v of Some t \<Rightarrow> set_theme oldTheme ctx | None \<Rightarrow> ctx)
        in emit NvgRestore ctx)"

section \<open>The scrolling box (scrolling_box.hpp, scrolling_box.cpp)\<close>

text \<open>
  A value of the layout engine that may be NaN ("not set") is a \<open>real option\<close>, \<open>None\<close>
  being NaN; \<open>ntz\<close> (view.cpp) turns NaN into zero.
\<close>

fun ntz :: "real option \<Rightarrow> real" where
  "ntz None = 0"
| "ntz (Some v) = v"

text \<open>
  The computed layout of a child of the flat box, as the layout engine reports it:
  \<open>YGNodeLayoutGetTop\<close>, \<open>YGNodeLayoutGetHeight\<close> and \<open>YGNodeLayoutGetMargin\<close> for the top
  and bottom edges.
\<close>

record YGLayout =
  layoutTop :: real
  layoutHeight :: real
  layoutMarginTop :: "real option"
  layoutMarginBottom :: "real option"


text \<open>
  The members of \<open>ScrollingBox\<close>: its own position, height and computed paddings, the
  children of its flat box, and its private fields. \<open>scrollAnimation\<close> is the target of
  the interpolation of \<open>scrollY\<close> in flight, if any (the animation entry tagged with the
  address of \<open>scrollY\<close>). \<open>flatBoxPositionTop\<close> is the relative top position of the flat
  box in the layout engine (\<open>YGNodeStyleSetPosition\<close> with \<open>YGEdgeTop\<close>), undefined until
  it is set.
\<close>

record ScrollingBox =
  boxY :: real
  boxHeight :: real
  layoutPaddingTop :: "real option"
  layoutPaddingBottom :: "real option"
  flatBoxChildren :: "YGLayout list"
  updateScrollingOnNextFrame :: bool
  middleY :: real
  bottomY :: real
  scrollY :: real
  scrollAnimation :: "real option"
  flatBoxPositionTop :: "real option"


definition getScrollingAreaTopBoundary :: "ScrollingBox \<Rightarrow> real" where
  "getScrollingAreaTopBoundary s = boxY s + ntz (layoutPaddingTop s)"

definition getScrollingAreaHeight :: "ScrollingBox \<Rightarrow> real" where
  "getScrollingAreaHeight s =
     boxHeight s - ntz (layoutPaddingTop s) - ntz (layoutPaddingBottom s)"

definition prebakeScrolling :: "ScrollingBox \<Rightarrow> ScrollingBox" where
  "prebakeScrolling s =
     (let y = getScrollingAreaTopBoundary s; height = getScrollingAreaHeight s
      in s\<lparr>middleY := y + height / 2, bottomY := y + height\<rparr>)"

text \<open>\<open>startScrolling\<close>; the layout invalidation at its end is outside the model.\<close>

definition startScrolling :: "bool \<Rightarrow> real \<Rightarrow> ScrollingBox \<Rightarrow> ScrollingBox" where
  "startScrolling animated newScroll s =
     (if newScroll = scrollY s then s
      else if animated then s\<lparr>scrollAnimation := Some newScroll\<rparr>
      else s\<lparr>scrollY := newScroll, scrollAnimation := None\<rparr>)"

definition getContentHeight :: "ScrollingBox \<Rightarrow> real" where
  "getContentHeight s =
     (let flatBoxChildren = flatBoxChildren s in
      if length flatBoxChildren = 0 then 0
      else
        let firstChild = flatBoxChildren ! 0;
            lastChild = flatBoxChildren ! (length flatBoxChildren - 1)
        in layoutTop lastChild
           + (layoutHeight lastChild + ntz (layoutMarginBottom lastChild))
           - layoutTop firstChild)"

text \<open>
  Conversion of a \<open>float\<close> to the 32-bit \<open>int\<close>: truncation towards zero. When the
  truncated value does not fit the type the behaviour is undefined: \<open>None\<close>.
\<close>

definition truncate_towards_zero :: "real \<Rightarrow> int" where
  "truncate_towards_zero r = (if 0 \<le> r then \<lfloor>r\<rfloor> else \<lceil>r\<rceil>)"







text \<open>
  \<open>ScrollingBox::willAppear\<close>: the boundaries are prebaked and, on a state reset, the box
  scrolls to the top at once and asks for an update on the next frame. The notification
  of the children by \<open>Box::willAppear\<close> is outside this record.
\<close>

definition ScrollingBox_willAppear :: "bool \<Rightarrow> ScrollingBox \<Rightarrow> ScrollingBox" where
  "ScrollingBox_willAppear resetState s0 =
     (let s = prebakeScrolling s0
      in if resetState then (startScrolling False 0 s)\<lparr>updateScrollingOnNextFrame := True\<rparr>
         else s)"

text \<open>
  Children stacked in a column with zero spacing, as the layout engine places them: each
  child's top is the previous child's top plus its height, plus the previous child's
  bottom margin and the child's own top margin.
\<close>

fun stacked :: "YGLayout list \<Rightarrow> bool" where
  "stacked [] = True"
| "stacked [c] = True"
| "stacked (a # b # cs) =
     (layoutTop b = layoutTop a + layoutHeight a + ntz (layoutMarginBottom a)
                    + ntz (layoutMarginTop b)
      \<and> stacked (b # cs))"

text \<open>
  The specification's words for the content height: the span from the first child's top,
  that child's own top margin included, to the last child's bottom, its bottom margin
  included; and the sum of the heights plus the margins between consecutive children.
\<close>

definition span_with_margins :: "YGLayout list \<Rightarrow> real" where
  "span_with_margins cs =
     (layoutTop (last cs) + layoutHeight (last cs) + ntz (layoutMarginBottom (last cs)))
     - (layoutTop (hd cs) - ntz (layoutMarginTop (hd cs)))"

definition heights_and_margins_between :: "YGLayout list \<Rightarrow> real" where
  "heights_and_margins_between cs =
     sum_list (map layoutHeight cs)
     + sum_list (map (\<lambda>c. ntz (layoutMarginBottom c)) (butlast cs))
     + sum_list (map (\<lambda>c. ntz (layoutMarginTop c)) (tl cs))"

subsection \<open>Example states\<close>




text \<open>Two stacked children with margins.\<close>

definition two_children_box :: ScrollingBox where
  "two_children_box =
     \<lparr>boxY = 0, boxHeight = 200, layoutPaddingTop = None, layoutPaddingBottom = None,
      flatBoxChildren =
        [\<lparr>layoutTop = 10, layoutHeight = 50, layoutMarginTop = Some 10,
          layoutMarginBottom = Some 5\<rparr>,
         \<lparr>layoutTop = 72, layoutHeight = 30, layoutMarginTop = Some 7,
          layoutMarginBottom = Some 3\<rparr>],
      updateScrollingOnNextFrame = False, middleY = 100, bottomY = 200, scrollY = 0,
      scrollAnimation = None, flatBoxPositionTop = None\<rparr>"

text \<open>One child with top margin 10, height 50 and bottom margin 5.\<close>

definition one_child_box :: ScrollingBox where
  "one_child_box =
     \<lparr>boxY = 0, boxHeight = 200, layoutPaddingTop = None, layoutPaddingBottom = None,
      flatBoxChildren =
        [\<lparr>layoutTop = 10, layoutHeight = 50, layoutMarginTop = Some 10,
          layoutMarginBottom = Some 5\<rparr>],
      updateScrollingOnNextFrame = False, middleY = 100, bottomY = 200, scrollY = 0,
      scrollAnimation = None, flatBoxPositionTop = None\<rparr>"

section \<open>The legacy box layout (box_layout.cpp)\<close>

text \<open>
  \<open>box_layout.cpp\<close> is written against the integral geometry of the legacy view class:
  positions are \<open>int\<close> and extents \<open>unsigned\<close>, as the signatures and locals of the file
  show (\<open>draw\<close>, \<open>setMargins\<close>, \<open>int xAdvance\<close>, \<open>unsigned lastViewRight\<close>). Both are 32
  bits wide; mixed sums are computed in \<open>unsigned\<close> and wrap. The declarations of the
  getters are not among the sources: \<open>getX\<close>, \<open>getY\<close> and \<open>getWidth\<close> are taken to return
  the boundary that \<open>setBoundaries\<close> stored, and \<open>getHeight\<close> follows \<open>View::getHeight\<close>
  of view.cpp, which applies the collapse state. In the records below, \<open>ownX\<close>, \<open>ownY\<close>, \<open>ownWidth\<close> and
  \<open>ownHeight\<close> are the layout's own \<open>x\<close>, \<open>y\<close>, \<open>width\<close> and \<open>height\<close>, \<open>childView\<close> and
  \<open>childFill\<close> the members \<open>view\<close> and \<open>fill\<close> of a child record, and \<open>layoutChildren\<close> the
  member \<open>children\<close>.
\<close>

type_synonym c_int = "32 word"

type_synonym c_unsigned = "32 word"

datatype lifecycle = WillAppear bool | WillDisappear bool

record legacy_view =
  viewX :: c_int
  viewY :: c_int
  viewWidth :: c_unsigned
  viewHeight :: c_unsigned
  viewCollapseState :: real
  lifecycle :: "lifecycle list"

definition setBoundaries ::
  "c_int \<Rightarrow> c_int \<Rightarrow> c_unsigned \<Rightarrow> c_unsigned \<Rightarrow> legacy_view \<Rightarrow> legacy_view" where
  "setBoundaries x y w h v = v\<lparr>viewX := x, viewY := y, viewWidth := w, viewHeight := h\<rparr>"

text \<open>\<open>View::isCollapsed\<close> (view.cpp).\<close>

definition isCollapsed :: "legacy_view \<Rightarrow> bool" where
  "isCollapsed v = (viewCollapseState v < 1)"

text \<open>
  Conversion of a \<open>float\<close> to \<open>unsigned\<close>: truncation towards zero. When the truncated
  value does not fit the type the behaviour is undefined: \<open>None\<close>.
\<close>

definition float_to_unsigned :: "real \<Rightarrow> c_unsigned option" where
  "float_to_unsigned r =
     (let k = truncate_towards_zero r
      in if 0 \<le> k \<and> k < 2 ^ 32 then Some (of_int k) else None)"

text \<open>
  \<open>View::getHeight(includeCollapse)\<close> (view.cpp): the height, multiplied by the collapse
  state when \<open>includeCollapse\<close> holds, which is the default of the parameter; the product
  is a \<open>float\<close> and is stored as \<open>unsigned\<close>.
\<close>

definition getHeight_view :: "bool \<Rightarrow> legacy_view \<Rightarrow> c_unsigned option" where
  "getHeight_view includeCollapse v =
     float_to_unsigned
       (real (unat (viewHeight v)) * (if includeCollapse then viewCollapseState v else 1))"

definition willAppear_view :: "bool \<Rightarrow> legacy_view \<Rightarrow> legacy_view" where
  "willAppear_view resetState v = v\<lparr>lifecycle := lifecycle v @ [WillAppear resetState]\<rparr>"

definition willDisappear_view :: "bool \<Rightarrow> legacy_view \<Rightarrow> legacy_view" where
  "willDisappear_view resetState v =
     v\<lparr>lifecycle := lifecycle v @ [WillDisappear resetState]\<rparr>"

record BoxLayoutChild =
  childView :: legacy_view
  childFill :: bool

datatype BoxLayoutOrientation = VERTICAL | HORIZONTAL

text \<open>
  Of the gravities, \<open>layout\<close> distinguishes \<open>RIGHT\<close> only; every other value takes the
  \<open>default\<close> branch of its \<open>switch\<close>.
\<close>

datatype BoxLayoutGravity = GRAVITY_RIGHT | GRAVITY_OTHER

record BoxLayout =
  ownX :: c_int
  ownY :: c_int
  ownWidth :: c_unsigned
  ownHeight :: c_unsigned
  orientation :: BoxLayoutOrientation
  spacing :: c_unsigned
  marginTop :: c_unsigned
  marginRight :: c_unsigned
  marginBottom :: c_unsigned
  marginLeft :: c_unsigned
  gravity :: BoxLayoutGravity
  resize :: bool
  rememberFocus :: bool
  originalDefaultFocus :: size_t
  defaultFocusedIndex :: size_t
  childFocused :: bool
  layoutChildren :: "BoxLayoutChild list"

text \<open>
  The constructor \<open>BoxLayout(orientation, defaultFocus)\<close>; \<open>init\<close> carries the default
  member initialisers of the class declaration.
\<close>

definition new_BoxLayout :: "BoxLayoutOrientation \<Rightarrow> size_t \<Rightarrow> BoxLayout \<Rightarrow> BoxLayout" where
  "new_BoxLayout orient defaultFocus' init =
     init\<lparr>orientation := orient, originalDefaultFocus := defaultFocus',
          defaultFocusedIndex := defaultFocus'\<rparr>"

definition setRememberFocus :: "bool \<Rightarrow> BoxLayout \<Rightarrow> BoxLayout" where
  "setRememberFocus remember b = b\<lparr>rememberFocus := remember\<rparr>"

text \<open>
  \<open>BoxLayout::addView\<close>: the child record is appended and the view is told that it will
  appear. The position token stored as the view's parent user data is an iterator of the
  list; here it is the child's index.
\<close>

definition addView_layout :: "legacy_view \<Rightarrow> bool \<Rightarrow> bool \<Rightarrow> BoxLayout \<Rightarrow> BoxLayout" where
  "addView_layout v fill' resetState b =
     b\<lparr>layoutChildren :=
         layoutChildren b @ [\<lparr>childView = willAppear_view resetState v, childFill = fill'\<rparr>]\<rparr>"

text \<open>
  \<open>BoxLayout::onChildFocusGained\<close>. \<open>childIterator\<close> is what the child's parent user data
  points to (\<open>None\<close>: the pointer is null); \<open>std::distance\<close> from \<open>begin()\<close> is the index.
  The user data is read only when the focus is remembered.
\<close>

definition onChildFocusGained :: "nat option \<Rightarrow> BoxLayout \<Rightarrow> error + BoxLayout" where
  "onChildFocusGained childIterator b0 =
     (let b = b0\<lparr>childFocused := True\<rparr> in
      if rememberFocus b
      then (case childIterator of
              None \<Rightarrow> Inl NullPointer
            | Some position \<Rightarrow> Inr (b\<lparr>defaultFocusedIndex := of_nat position\<rparr>))
      else Inr b)"

definition onChildFocusLost :: "BoxLayout \<Rightarrow> BoxLayout" where
  "onChildFocusLost b = b\<lparr>childFocused := False\<rparr>"

definition willAppear :: "bool \<Rightarrow> BoxLayout \<Rightarrow> BoxLayout" where
  "willAppear resetState b =
     b\<lparr>layoutChildren :=
         map (\<lambda>child. child\<lparr>childView := willAppear_view resetState (childView child)\<rparr>)
             (layoutChildren b)\<rparr>"

definition willDisappear :: "bool \<Rightarrow> BoxLayout \<Rightarrow> BoxLayout" where
  "willDisappear resetState b0 =
     (let b = b0\<lparr>layoutChildren :=
                  map (\<lambda>child.
                         child\<lparr>childView := willDisappear_view resetState (childView child)\<rparr>)
                      (layoutChildren b0)\<rparr>
      in if rememberFocus b then b\<lparr>defaultFocusedIndex := originalDefaultFocus b\<rparr> else b)"

subsection \<open>The horizontal layout pass\<close>

text \<open>
  The hooks that \<open>layout\<close> calls and whose code is not among the sources: the virtual
  \<open>customSpacing(current, next, &spacing)\<close>, given by the spacing it leaves;
  \<open>invalidate(true)\<close>, the immediate layout of a child; and \<open>invalidate()\<close>.
\<close>

record hooks =
  customSpacing :: "legacy_view \<Rightarrow> legacy_view option \<Rightarrow> c_int \<Rightarrow> c_int"
  invalidate_immediate :: "legacy_view \<Rightarrow> legacy_view"
  invalidate :: "legacy_view \<Rightarrow> legacy_view"

text \<open>
  The loop of the horizontal branch over the children from the current one on, with the
  running \<open>xAdvance\<close>.
\<close>

fun layout_row ::
  "hooks \<Rightarrow> BoxLayout \<Rightarrow> c_int \<Rightarrow> BoxLayoutChild list \<Rightarrow> BoxLayoutChild list" where
  "layout_row hk b xAdvance [] = []"
| "layout_row hk b xAdvance (child # rest) =
     (let childWidth = viewWidth (childView child);
          v = (if childFill child
               then setBoundaries xAdvance (ownY b + marginTop b)
                      (ownX b + ownWidth b - xAdvance - marginRight b)
                      (ownHeight b - marginTop b - marginBottom b) (childView child)
               else setBoundaries xAdvance (ownY b + marginTop b)
                      childWidth
                      (ownHeight b - marginTop b - marginBottom b) (childView child));
          v = invalidate_immediate hk v;
          childWidth = viewWidth v;
          spacing0 = spacing b;
          next = (case rest of [] \<Rightarrow> None | n # _ \<Rightarrow> Some (childView n));
          spacing1 = customSpacing hk v next spacing0;
          spacing2 = (if isCollapsed v then 0 else spacing1)
      in child\<lparr>childView := v\<rparr>
         # layout_row hk b (xAdvance + (spacing2 + childWidth)) rest)"

text \<open>
  The two edges that the gravity pass compares, as it computes them: sums in \<open>unsigned\<close>.
\<close>

definition lastViewRight :: "BoxLayout \<Rightarrow> c_unsigned" where
  "lastViewRight b =
     (let lastView = childView (last (layoutChildren b))
      in viewX lastView + viewWidth lastView)"

definition ourRight :: "BoxLayout \<Rightarrow> c_unsigned" where
  "ourRight b = ownX b + ownWidth b"

text \<open>
  The loop of the gravity pass: every view is given its boundaries again, its \<open>x\<close>
  increased by \<open>difference\<close> (an \<open>unsigned\<close> added to an \<open>int\<close> and stored as \<open>int\<close>) and
  its height read with \<open>getHeight()\<close>, and is invalidated.
\<close>

fun shift_children ::
  "hooks \<Rightarrow> c_unsigned \<Rightarrow> BoxLayoutChild list \<Rightarrow> BoxLayoutChild list option" where
  "shift_children hk difference [] = Some []"
| "shift_children hk difference (child # rest) =
     (let view = childView child in
      case getHeight_view True view of
        None \<Rightarrow> None
      | Some h \<Rightarrow>
          map_option
            ((#) (child\<lparr>childView :=
                    invalidate hk
                      (setBoundaries (viewX view + difference) (viewY view) (viewWidth view)
                         h view)\<rparr>))
            (shift_children hk difference rest))"

text \<open>The gravity pass that ends the horizontal branch.\<close>

definition layout_gravity :: "hooks \<Rightarrow> BoxLayout \<Rightarrow> BoxLayout option" where
  "layout_gravity hk b =
     (if layoutChildren b \<noteq> [] then
        (case gravity b of
           GRAVITY_RIGHT \<Rightarrow>
             if lastViewRight b \<le> ourRight b then
               let difference = ourRight b - lastViewRight b
               in map_option (\<lambda>cs. b\<lparr>layoutChildren := cs\<rparr>)
                    (shift_children hk difference (layoutChildren b))
             else Some b
         | GRAVITY_OTHER \<Rightarrow> Some b)
      else Some b)"

text \<open>
  The horizontal branch of \<open>BoxLayout::layout\<close>: the loop over the children, then the
  gravity pass.
\<close>

definition layout_row_pass :: "hooks \<Rightarrow> BoxLayout \<Rightarrow> BoxLayout" where
  "layout_row_pass hk b =
     b\<lparr>layoutChildren := layout_row hk b (ownX b + marginLeft b) (layoutChildren b)\<rparr>"

definition layout_horizontal :: "hooks \<Rightarrow> BoxLayout \<Rightarrow> BoxLayout option" where
  "layout_horizontal hk b = layout_gravity hk (layout_row_pass hk b)"

text \<open>The children's \<open>x\<close> positions and widths, read as \<open>int\<close> and \<open>unsigned\<close>.\<close>

definition positions :: "BoxLayout \<Rightarrow> int list" where
  "positions b = map (\<lambda>child. sint (viewX (childView child))) (layoutChildren b)"

definition widths :: "BoxLayout \<Rightarrow> nat list" where
  "widths b = map (\<lambda>child. unat (viewWidth (childView child))) (layoutChildren b)"

subsection \<open>Example states\<close>

text \<open>
  A layout configured with default focus 0 that remembers the focus, with three
  children.
\<close>

definition plain_view :: legacy_view where
  "plain_view = \<lparr>viewX = 0, viewY = 0, viewWidth = 10, viewHeight = 10,
     viewCollapseState = 1, lifecycle = []\<rparr>"

definition remembering_layout :: BoxLayout where
  "remembering_layout =
     setRememberFocus True
       (addView_layout plain_view False False
         (addView_layout plain_view False False
           (addView_layout plain_view False False
             (new_BoxLayout HORIZONTAL 0
               \<lparr>ownX = 0, ownY = 0, ownWidth = 100, ownHeight = 20,
                orientation = VERTICAL, spacing = 0, marginTop = 0, marginRight = 0, marginBottom = 0, marginLeft = 0,
                gravity = GRAVITY_OTHER, resize = False, rememberFocus = False,
                originalDefaultFocus = 0, defaultFocusedIndex = 0, childFocused = False,
                layoutChildren = []\<rparr>))))"

text \<open>Hooks that change nothing.\<close>

definition plain_hooks :: hooks where
  "plain_hooks = \<lparr>customSpacing = (\<lambda>current next sp. sp),
     invalidate_immediate = (\<lambda>v. v), invalidate = (\<lambda>v. v)\<rparr>"

text \<open>
  A layout with RIGHT gravity at \<open>x = -110\<close>, 100 wide, with two children of width 60:
  its right edge is at \<open>-10\<close>.
\<close>

definition offscreen_layout :: BoxLayout where
  "offscreen_layout =
     \<lparr>ownX = - 110, ownY = 0, ownWidth = 100, ownHeight = 20, orientation = HORIZONTAL,
      spacing = 0, marginTop = 0, marginRight = 0, marginBottom = 0, marginLeft = 0,
      gravity = GRAVITY_RIGHT, resize = False, rememberFocus = False,
      originalDefaultFocus = 0, defaultFocusedIndex = 0, childFocused = False,
      layoutChildren =
        [\<lparr>childView = \<lparr>viewX = 0, viewY = 0, viewWidth = 60, viewHeight = 20,
                        viewCollapseState = 1, lifecycle = []\<rparr>, childFill = False\<rparr>,
         \<lparr>childView = \<lparr>viewX = 0, viewY = 0, viewWidth = 60, viewHeight = 20,
                        viewCollapseState = 1, lifecycle = []\<rparr>, childFill = False\<rparr>]\<rparr>"

text \<open>
  A layout with RIGHT gravity at \<open>x = 0\<close>, 100 wide, with a right margin of 10, a child of
  width 150 and a fill child after it.
\<close>

definition fill_overflow_layout :: BoxLayout where
  "fill_overflow_layout =
     \<lparr>ownX = 0, ownY = 0, ownWidth = 100, ownHeight = 20, orientation = HORIZONTAL,
      spacing = 0, marginTop = 0, marginRight = 10, marginBottom = 0, marginLeft = 0,
      gravity = GRAVITY_RIGHT, resize = False, rememberFocus = False,
      originalDefaultFocus = 0, defaultFocusedIndex = 0, childFocused = False,
      layoutChildren =
        [\<lparr>childView = \<lparr>viewX = 0, viewY = 0, viewWidth = 150, viewHeight = 20,
                        viewCollapseState = 1, lifecycle = []\<rparr>, childFill = False\<rparr>,
         \<lparr>childView = \<lparr>viewX = 0, viewY = 0, viewWidth = 0, viewHeight = 20,
                        viewCollapseState = 1, lifecycle = []\<rparr>, childFill = True\<rparr>]\<rparr>"

section \<open>XML attributes (view.cpp, View::applyXMLAttribute)\<close>

text \<open>
  \<open>std::string::find(str, pos)\<close>: the first index at or after \<open>pos\<close> where \<open>str\<close> occurs,
  \<open>None\<close> (\<open>npos\<close>) when there is none.
\<close>

definition string_find :: "string \<Rightarrow> string \<Rightarrow> nat \<Rightarrow> nat option" where
  "string_find data str pos =
     List.find (\<lambda>i. take (length str) (drop i data) = str) [pos ..< Suc (length data)]"

text \<open>
  \<open>endsWith\<close>: \<open>data.find(suffix, data.size() - suffix.size()) != npos\<close>. The position is
  a \<open>size_t\<close>; for a suffix longer than the data it wraps around to a position beyond the
  end.
\<close>

definition endsWith :: "string \<Rightarrow> string \<Rightarrow> bool" where
  "endsWith data suffix =
     (string_find data suffix
        (unat (of_nat (length data) - of_nat (length suffix) :: size_t)) \<noteq> None)"

text \<open>
  \<open>startsWith\<close>: \<open>data.rfind(prefix, 0) == 0\<close>. A search backwards from position 0 can
  only find the prefix at index 0.
\<close>

definition startsWith :: "string \<Rightarrow> string \<Rightarrow> bool" where
  "startsWith data prefix = (take (length prefix) data = prefix)"

definition isspace :: "char \<Rightarrow> bool" where
  "isspace c = (of_char c \<in> {32, 9, 10, 11, 12, 13 :: nat})"

definition isdigit :: "char \<Rightarrow> bool" where
  "isdigit c = (48 \<le> (of_char c :: nat) \<and> (of_char c :: nat) \<le> 57)"

definition digit :: "char \<Rightarrow> nat" where
  "digit c = of_char c - 48"

definition hexval :: "char \<Rightarrow> nat option" where
  "hexval c =
     (let n = (of_char c :: nat) in
      if 48 \<le> n \<and> n \<le> 57 then Some (n - 48)
      else if 65 \<le> n \<and> n \<le> 70 then Some (n - 55)
      else if 97 \<le> n \<and> n \<le> 102 then Some (n - 87)
      else None)"

text \<open>The value of a string of decimal digits, and of the digits after a decimal point.\<close>

definition digits_value :: "string \<Rightarrow> nat" where
  "digits_value ds = foldl (\<lambda>n c. 10 * n + digit c) 0 ds"

definition fraction_value :: "string \<Rightarrow> real" where
  "fraction_value ds = real (digits_value ds) / 10 ^ length ds"

text \<open>
  \<open>std::stof\<close> on decimal notation: leading white space, an optional sign, digits with an
  optional fractional part, an optional exponent; what follows the number is ignored.
  \<open>InvalidArgument\<close> is the exception \<open>std::invalid_argument\<close> (no number to read).
  The result is the decimal value read, as a real number: rounding to \<open>float\<close> and the
  range error of \<open>stof\<close> are not modelled. Hexadecimal notation, infinities and NaN, which
  the C library reads too, are answered \<open>NotDecimal\<close>.
\<close>

datatype stof_result = Value real | InvalidArgument | NotDecimal

definition stof_exponent :: "string \<Rightarrow> real" where
  "stof_exponent s =
     (case s of
        e # rest \<Rightarrow>
          if e = CHR ''e'' \<or> e = CHR ''E'' then
            (let neg = (rest \<noteq> [] \<and> hd rest = CHR ''-'');
                 rest' = (if rest \<noteq> [] \<and> (hd rest = CHR ''-'' \<or> hd rest = CHR ''+'')
                          then tl rest else rest);
                 ds = takeWhile isdigit rest'
             in if ds = [] then 1
                else if neg then 1 / 10 ^ digits_value ds else 10 ^ digits_value ds)
          else 1
      | [] \<Rightarrow> 1)"

definition stof :: "string \<Rightarrow> stof_result" where
  "stof str =
     (let s = dropWhile isspace str;
          neg = (s \<noteq> [] \<and> hd s = CHR ''-'');
          s = (if s \<noteq> [] \<and> (hd s = CHR ''-'' \<or> hd s = CHR ''+'') then tl s else s);
          lower = map (\<lambda>c. if 65 \<le> (of_char c :: nat) \<and> (of_char c :: nat) \<le> 90
                             then char_of (of_char c + 32 :: nat) else c) s
      in if take 2 lower = ''0x'' \<or> take 3 lower = ''inf'' \<or> take 3 lower = ''nan''
         then NotDecimal
         else
           let ip = takeWhile isdigit s;
               rest = dropWhile isdigit s;
               fp = (if rest \<noteq> [] \<and> hd rest = CHR ''.'' then takeWhile isdigit (tl rest)
                     else []);
               rest' = (if rest \<noteq> [] \<and> hd rest = CHR ''.'' then dropWhile isdigit (tl rest)
                        else rest)
           in if ip = [] \<and> fp = [] then InvalidArgument
              else
                let v = (real (digits_value ip) + fraction_value fp) * stof_exponent rest'
                in Value (if neg then - v else v))"

text \<open>
  One conversion \<open>%02hhx\<close> of \<open>sscanf\<close>: white space is skipped, then at most two
  hexadecimal digits are read, at least one. A sign or a \<open>0x\<close> prefix, which the C library
  accepts as well, is answered \<open>Unmodelled\<close>.
\<close>

datatype scan = Matched nat string | Failure | Unmodelled

definition scan_hhx :: "string \<Rightarrow> scan" where
  "scan_hhx str =
     (case dropWhile isspace str of
        [] \<Rightarrow> Failure
      | c # t \<Rightarrow>
          if c = CHR ''+'' \<or> c = CHR ''-'' then Unmodelled
          else (case hexval c of
                  None \<Rightarrow> Failure
                | Some h \<Rightarrow>
                    (case t of
                       [] \<Rightarrow> Matched h []
                     | d # u \<Rightarrow>
                         if c = CHR ''0'' \<and> (d = CHR ''x'' \<or> d = CHR ''X'') then Unmodelled
                         else (case hexval d of
                                 None \<Rightarrow> Matched h t
                               | Some l \<Rightarrow> Matched (16 * h + l) u))))"

text \<open>
  \<open>sscanf(value, "#%02hhx...", ...)\<close> with \<open>n\<close> conversions, on a value that starts with
  \<open>#\<close>: the values converted before the first matching failure (\<open>sscanf\<close> returns their
  number); \<open>None\<close> when a conversion is \<open>Unmodelled\<close>.
\<close>

fun sscanf_fields :: "nat \<Rightarrow> string \<Rightarrow> nat list option" where
  "sscanf_fields 0 s = Some []"
| "sscanf_fields (Suc n) s =
     (case scan_hhx s of
        Unmodelled \<Rightarrow> None
      | Failure \<Rightarrow> Some []
      | Matched v rest \<Rightarrow> map_option ((#) v) (sscanf_fields n rest))"

text \<open>Colours of the vector graphics library: four components in \<open>[0, 1]\<close>.\<close>

datatype NVGcolor = NVGcolor real real real real

definition nvgRGBA :: "nat \<Rightarrow> nat \<Rightarrow> nat \<Rightarrow> nat \<Rightarrow> NVGcolor" where
  "nvgRGBA r g b a = NVGcolor (real r / 255) (real g / 255) (real b / 255) (real a / 255)"

definition nvgRGB :: "nat \<Rightarrow> nat \<Rightarrow> nat \<Rightarrow> NVGcolor" where
  "nvgRGB r g b = nvgRGBA r g b 255"

text \<open>
  The five maps from attribute names to handlers and the set of known names. A handler is
  a closure; the model keeps the registered names and reports which handler
  \<open>applyXMLAttribute\<close> calls, and with which argument.
\<close>

record registry =
  autoAttributes :: "string set"
  percentageAttributes :: "string set"
  floatAttributes :: "string set"
  stringAttributes :: "string set"
  colorAttributes :: "string set"
  knownAttributes :: "string set"

datatype handler_call =
    StringAttribute string string
  | AutoAttribute string
  | FloatAttribute string real
  | PercentageAttribute string real
  | ColorAttribute string NVGcolor

definition registerFloatXMLAttribute :: "string \<Rightarrow> registry \<Rightarrow> registry" where
  "registerFloatXMLAttribute name reg =
     reg\<lparr>floatAttributes := insert name (floatAttributes reg),
         knownAttributes := insert name (knownAttributes reg)\<rparr>"

definition registerPercentageXMLAttribute :: "string \<Rightarrow> registry \<Rightarrow> registry" where
  "registerPercentageXMLAttribute name reg =
     reg\<lparr>percentageAttributes := insert name (percentageAttributes reg),
         knownAttributes := insert name (knownAttributes reg)\<rparr>"

definition registerAutoXMLAttribute :: "string \<Rightarrow> registry \<Rightarrow> registry" where
  "registerAutoXMLAttribute name reg =
     reg\<lparr>autoAttributes := insert name (autoAttributes reg),
         knownAttributes := insert name (knownAttributes reg)\<rparr>"

definition registerStringXMLAttribute :: "string \<Rightarrow> registry \<Rightarrow> registry" where
  "registerStringXMLAttribute name reg =
     reg\<lparr>stringAttributes := insert name (stringAttributes reg),
         knownAttributes := insert name (knownAttributes reg)\<rparr>"

definition registerColorXMLAttribute :: "string \<Rightarrow> registry \<Rightarrow> registry" where
  "registerColorXMLAttribute name reg =
     reg\<lparr>colorAttributes := insert name (colorAttributes reg),
         knownAttributes := insert name (knownAttributes reg)\<rparr>"

definition empty_registry :: registry where
  "empty_registry = \<lparr>autoAttributes = {}, percentageAttributes = {}, floatAttributes = {},
     stringAttributes = {}, colorAttributes = {}, knownAttributes = {}\<rparr>"

text \<open>\<open>View::registerCommonAttributes\<close>, in the order of the source.\<close>

definition registerCommonAttributes :: "registry \<Rightarrow> registry" where
  "registerCommonAttributes =
     registerStringXMLAttribute ''visibility''
     \<circ> registerFloatXMLAttribute ''borderLeft''
     \<circ> registerFloatXMLAttribute ''borderBottom''
     \<circ> registerFloatXMLAttribute ''borderRight''
     \<circ> registerFloatXMLAttribute ''borderTop''
     \<circ> registerColorXMLAttribute ''borderColor''
     \<circ> registerAutoXMLAttribute ''marginLeft''
     \<circ> registerFloatXMLAttribute ''marginLeft''
     \<circ> registerAutoXMLAttribute ''marginBottom''
     \<circ> registerFloatXMLAttribute ''marginBottom''
     \<circ> registerAutoXMLAttribute ''marginRight''
     \<circ> registerFloatXMLAttribute ''marginRight''
     \<circ> registerAutoXMLAttribute ''marginTop''
     \<circ> registerFloatXMLAttribute ''marginTop''
     \<circ> registerFloatXMLAttribute ''shrink''
     \<circ> registerFloatXMLAttribute ''grow''
     \<circ> registerPercentageXMLAttribute ''height''
     \<circ> registerFloatXMLAttribute ''height''
     \<circ> registerAutoXMLAttribute ''height''
     \<circ> registerPercentageXMLAttribute ''width''
     \<circ> registerFloatXMLAttribute ''width''
     \<circ> registerAutoXMLAttribute ''width''"

text \<open>The registry of a freshly constructed \<open>View\<close>.\<close>

definition new_View_registry :: registry where
  "new_View_registry = registerCommonAttributes empty_registry"

datatype xml_error = LogicError | UnmodelledInput

text \<open>
  \<open>View::applyXMLAttribute\<close>. \<open>style\<close> and \<open>theme\<close> are \<open>Application::getStyle()\<close> and
  \<open>Application::getTheme()\<close>, whose lookup throws \<open>std::logic_error\<close> for a missing key.
  The result is the returned \<open>bool\<close> with the handler call made, if any.
\<close>

definition applyXMLAttribute ::
  "(string \<rightharpoonup> real) \<Rightarrow> (string \<rightharpoonup> NVGcolor) \<Rightarrow> registry \<Rightarrow> string \<Rightarrow> string
   \<Rightarrow> xml_error + (bool \<times> handler_call option)" where
  "applyXMLAttribute style theme' reg name value =
     (if name \<in> stringAttributes reg then Inr (True, Some (StringAttribute name value))
      else if value = ''auto'' then
        (if name \<in> autoAttributes reg then Inr (True, Some (AutoAttribute name))
         else Inr (False, None))
      else if endsWith value ''px'' then
        (case stof (take (length value - 2) value) of
           Value floatValue \<Rightarrow>
             if name \<in> floatAttributes reg
             then Inr (True, Some (FloatAttribute name floatValue))
             else Inr (False, None)
         | InvalidArgument \<Rightarrow> Inr (False, None)
         | NotDecimal \<Rightarrow> Inl UnmodelledInput)
      else if endsWith value ''%'' then
        (case stof (take (length value - 1) value) of
           Value floatValue \<Rightarrow>
             if floatValue < 0 \<or> floatValue > 100 then Inr (False, None)
             else if name \<in> percentageAttributes reg
             then Inr (True, Some (PercentageAttribute name floatValue))
             else Inr (False, None)
         | InvalidArgument \<Rightarrow> Inr (False, None)
         | NotDecimal \<Rightarrow> Inl UnmodelledInput)
      else if startsWith value ''@style/'' then
        (case style (drop 7 value) of
           None \<Rightarrow> Inl LogicError
         | Some v \<Rightarrow>
             if name \<in> floatAttributes reg then Inr (True, Some (FloatAttribute name v))
             else Inr (False, None))
      else if startsWith value ''#'' then
        (if length value = 7 then
           (case sscanf_fields 3 (drop 1 value) of
              None \<Rightarrow> Inl UnmodelledInput
            | Some [r, g, b] \<Rightarrow>
                if name \<in> colorAttributes reg
                then Inr (True, Some (ColorAttribute name (nvgRGB r g b)))
                else Inr (False, None)
            | Some _ \<Rightarrow> Inr (False, None))
         else if length value = 9 then
           (case sscanf_fields 4 (drop 1 value) of
              None \<Rightarrow> Inl UnmodelledInput
            | Some [r, g, b, a] \<Rightarrow>
                if name \<in> colorAttributes reg
                then Inr (True, Some (ColorAttribute name (nvgRGBA r g b a)))
                else Inr (False, None)
            | Some _ \<Rightarrow> Inr (False, None))
         else Inr (False, None))
      else if startsWith value ''@theme/'' then
        (case theme' (drop 7 value) of
           None \<Rightarrow> Inl LogicError
         | Some c \<Rightarrow>
             if name \<in> colorAttributes reg then Inr (True, Some (ColorAttribute name c))
             else Inr (False, None))
      else
        (case stof value of
           Value newValue \<Rightarrow>
             if name \<in> floatAttributes reg then Inr (True, Some (FloatAttribute name newValue))
             else Inr (False, None)
         | InvalidArgument \<Rightarrow> Inr (False, None)
         | NotDecimal \<Rightarrow> Inl UnmodelledInput))"

chapter \<open>Properties\<close>

section \<open>Focus traversal of a box\<close>

lemma size_of_bound: "i < size_of cs \<Longrightarrow> unat i < length cs"
proof -
  assume "i < size_of cs"
  then have "unat i < unat (of_nat (length cs) :: size_t)"
    by (simp add: size_of_def word_less_nat_alt)
  also have "\<dots> \<le> length cs"
    by (simp add: unat_of_nat)
  finally show ?thesis .
qed

lemma unat_succ:
  assumes "(i :: size_t) < n"
  shows "unat (i + 1) = Suc (unat i)"
proof -
  have "\<not> (- 1 :: size_t) < n" by simp
  with assms have "i \<noteq> - 1" by auto
  then have "1 + i \<noteq> 0" by (simp add: eq_neg_iff_add_eq_0 add.commute)
  then have "unat (1 + i) = Suc (unat i)" by (rule unatSuc)
  then show ?thesis by (simp add: add.commute)
qed

lemma loop_done: "cur \<noteq> None \<Longrightarrow> getNextFocus_loop cs off cur i = Some (Inr cur)"
  by (subst getNextFocus_loop.simps) auto

lemma loop_stop: "\<not> i < size_of cs \<Longrightarrow> getNextFocus_loop cs off cur i = Some (Inr cur)"
  by (subst getNextFocus_loop.simps) simp

lemma loop_step:
  "i < size_of cs \<Longrightarrow>
   getNextFocus_loop cs off None i =
   getNextFocus_loop cs off (getDefaultFocus (cs ! unat i)) (i + off)"
  by (subst getNextFocus_loop.simps) (simp add: size_of_bound)

lemma loop_forward:
  "\<exists>r. getNextFocus_loop cs 1 None i = Some (Inr r)
     \<and> (\<forall>v. r = Some v \<longrightarrow>
          (\<exists>j. unat i \<le> j \<and> j < length cs \<and> getDefaultFocus (cs ! j) = Some v
             \<and> (\<forall>k. unat i \<le> k \<and> k < j \<longrightarrow> getDefaultFocus (cs ! k) = None)))"
proof (induction "unat (size_of cs) - unat i" arbitrary: i rule: less_induct)
  case less
  show ?case
  proof (cases "i < size_of cs")
    case False
    then show ?thesis by (simp add: loop_stop)
  next
    case inside: True
    show ?thesis
    proof (cases "getDefaultFocus (cs ! unat i)")
      case (Some v)
      with inside have "getNextFocus_loop cs 1 None i = Some (Inr (Some v))"
        by (simp add: loop_step loop_done)
      moreover have "unat i < length cs" using inside by (rule size_of_bound)
      ultimately show ?thesis using Some by auto
    next
      case None
      have suc: "unat (i + 1) = Suc (unat i)" using inside by (rule unat_succ)
      have "unat i < unat (size_of cs)" using inside by (simp add: word_less_nat_alt)
      with suc have "unat (size_of cs) - unat (i + 1) < unat (size_of cs) - unat i" by simp
      from less [OF this] obtain r where
        r: "getNextFocus_loop cs 1 None (i + 1) = Some (Inr r)"
        and rv: "\<And>v. r = Some v \<Longrightarrow>
          \<exists>j. unat (i + 1) \<le> j \<and> j < length cs \<and> getDefaultFocus (cs ! j) = Some v
             \<and> (\<forall>k. unat (i + 1) \<le> k \<and> k < j \<longrightarrow> getDefaultFocus (cs ! k) = None)"
        by blast
      have here: "getNextFocus_loop cs 1 None i = Some (Inr r)"
        using inside None r by (simp add: loop_step)
      have "\<exists>j. unat i \<le> j \<and> j < length cs \<and> getDefaultFocus (cs ! j) = Some v
             \<and> (\<forall>k. unat i \<le> k \<and> k < j \<longrightarrow> getDefaultFocus (cs ! k) = None)"
        if "r = Some v" for v
      proof -
        from rv [OF that] obtain j where
          j: "Suc (unat i) \<le> j" "j < length cs" "getDefaultFocus (cs ! j) = Some v"
          and below: "\<And>k. Suc (unat i) \<le> k \<Longrightarrow> k < j \<Longrightarrow> getDefaultFocus (cs ! k) = None"
          unfolding suc by blast
        have "getDefaultFocus (cs ! k) = None" if "unat i \<le> k" "k < j" for k
        proof (cases "k = unat i")
          case True
          then show ?thesis using None by simp
        next
          case False
          with that have "Suc (unat i) \<le> k" by simp
          then show ?thesis using that(2) by (rule below)
        qed
        with j show ?thesis by (intro exI [of _ j]) simp
      qed
      with here show ?thesis by blast
    qed
  qed
qed

lemma loop_backward:
  "\<exists>r. getNextFocus_loop cs (- 1) None i = Some (Inr r)
     \<and> (\<forall>v. r = Some v \<longrightarrow>
          (\<exists>j. j \<le> unat i \<and> j < length cs \<and> getDefaultFocus (cs ! j) = Some v
             \<and> (\<forall>k. j < k \<and> k \<le> unat i \<longrightarrow> getDefaultFocus (cs ! k) = None)))"
proof (induction "unat i" arbitrary: i rule: less_induct)
  case less
  show ?case
  proof (cases "i < size_of cs")
    case False
    then show ?thesis by (simp add: loop_stop)
  next
    case inside: True
    show ?thesis
    proof (cases "getDefaultFocus (cs ! unat i)")
      case (Some v)
      with inside have "getNextFocus_loop cs (- 1) None i = Some (Inr (Some v))"
        by (simp add: loop_step loop_done)
      moreover have "unat i < length cs" using inside by (rule size_of_bound)
      ultimately show ?thesis using Some by auto
    next
      case None
      show ?thesis
      proof (cases "i = 0")
        case True
        have "\<not> (- 1 :: size_t) < size_of cs" by simp
        then have "getNextFocus_loop cs (- 1) None (- 1) = Some (Inr None)"
          by (rule loop_stop)
        with inside None True show ?thesis by (simp add: loop_step)
      next
        case False
        then have pred: "unat (i + (- 1)) = unat i - 1" by (simp add: unat_minus_one)
        from False have pos: "0 < unat i" by (simp add: unat_gt_0)
        with pred have "unat (i + (- 1)) < unat i" by simp
        from less [OF this] obtain r where
          r: "getNextFocus_loop cs (- 1) None (i + (- 1)) = Some (Inr r)"
          and rv: "\<And>v. r = Some v \<Longrightarrow>
            \<exists>j. j \<le> unat (i + (- 1)) \<and> j < length cs \<and> getDefaultFocus (cs ! j) = Some v
               \<and> (\<forall>k. j < k \<and> k \<le> unat (i + (- 1)) \<longrightarrow> getDefaultFocus (cs ! k) = None)"
          by blast
        have here: "getNextFocus_loop cs (- 1) None i = Some (Inr r)"
          using inside None r by (simp add: loop_step)
        have "\<exists>j. j \<le> unat i \<and> j < length cs \<and> getDefaultFocus (cs ! j) = Some v
               \<and> (\<forall>k. j < k \<and> k \<le> unat i \<longrightarrow> getDefaultFocus (cs ! k) = None)"
          if "r = Some v" for v
        proof -
          from rv [OF that] obtain j where
            j: "j \<le> unat i - 1" "j < length cs" "getDefaultFocus (cs ! j) = Some v"
            and above: "\<And>k. j < k \<Longrightarrow> k \<le> unat i - 1 \<Longrightarrow> getDefaultFocus (cs ! k) = None"
            unfolding pred by blast
          have "getDefaultFocus (cs ! k) = None" if "j < k" "k \<le> unat i" for k
          proof (cases "k = unat i")
            case True
            then show ?thesis using None by simp
          next
            case False
            with that have "k \<le> unat i - 1" by simp
            with that(1) show ?thesis by (rule above)
          qed
          with j show ?thesis by (intro exI [of _ j]) simp
        qed
        with here show ?thesis by blast
      qed
    qed
  qed
qed

text \<open>
  C2. A box with axis ROW answers "no next view" to the directions UP and DOWN, and a box
  with axis COLUMN to LEFT and RIGHT, whatever its children, its default focused index and
  the current view are.
\<close>

theorem getNextFocus_axis_mismatch:
  "getNextFocus (Box p ud ROW cs dfi) UP cur = Some (Inr None)
   \<and> getNextFocus (Box p ud ROW cs dfi) DOWN cur = Some (Inr None)
   \<and> getNextFocus (Box p ud COLUMN cs dfi) LEFT cur = Some (Inr None)
   \<and> getNextFocus (Box p ud COLUMN cs dfi) RIGHT cur = Some (Inr None)"
  by simp

theorem getNextFocus_axis_mismatch_witness:
  "getNextFocus (Box 1 None ROW [View 2 (Some 0) (Some 2), View 3 (Some 1) (Some 3)] 0)
     UP (View 2 (Some 0) (Some 2)) = Some (Inr None)
   \<and> getNextFocus (Box 1 None COLUMN [View 2 (Some 0) (Some 2), View 3 (Some 1) (Some 3)] 0)
     RIGHT (View 2 (Some 0) (Some 2)) = Some (Inr None)"
  using getNextFocus_axis_mismatch
    [of 1 None "[View 2 (Some 0) (Some 2), View 3 (Some 1) (Some 3)]" 0 "View 2 (Some 0) (Some 2)"]
  by blast

text \<open>
  C9. For a current child whose stored index is below the number of children,
  \<open>Box::getNextFocus\<close> returns (the scan ends) and every read of \<open>children\<close> is inside the
  sequence: the result is never the error \<open>OutOfRange\<close>. The offset for LEFT/UP is the
  largest \<open>size_t\<close>; from index 0 the step back wraps to that value, which the bound
  \<open>currentFocusIndex < children.size()\<close> rejects, so the answer is "no next view".
\<close>

theorem getNextFocus_terminates_in_bounds:
  assumes "parentUserdata cur = Some position" and "position < size_of cs"
  shows "(\<exists>r. getNextFocus (Box p ud ax cs dfi) d cur = Some (Inr r))
    \<and> unat (- 1 :: size_t) = 2 ^ 64 - 1
    \<and> (position = 0 \<longrightarrow>
          getNextFocus (Box p ud ROW cs dfi) LEFT cur = Some (Inr None)
          \<and> getNextFocus (Box p ud COLUMN cs dfi) UP cur = Some (Inr None))"
proof (intro conjI impI)
  show "\<exists>r. getNextFocus (Box p ud ax cs dfi) d cur = Some (Inr r)"
  proof (cases "(ax = ROW \<and> d \<noteq> LEFT \<and> d \<noteq> RIGHT) \<or> (ax = COLUMN \<and> d \<noteq> UP \<and> d \<noteq> DOWN)")
    case True
    then show ?thesis by auto
  next
    case gate: False
    show ?thesis
    proof (cases "(ax = ROW \<and> d = LEFT) \<or> (ax = COLUMN \<and> d = UP)")
      case True
      with gate assms(1) have "getNextFocus (Box p ud ax cs dfi) d cur =
          getNextFocus_loop cs (- 1) None (position + (- 1))"
        by auto
      with loop_backward [of cs "position + (- 1)"] show ?thesis by auto
    next
      case False
      with gate assms(1) have "getNextFocus (Box p ud ax cs dfi) d cur =
          getNextFocus_loop cs 1 None (position + 1)"
        by auto
      with loop_forward [of cs "position + 1"] show ?thesis by auto
    qed
  qed
next
  show "unat (- 1 :: size_t) = 2 ^ 64 - 1"
    by (simp add: unsigned_minus_1_eq_mask mask_eq_exp_minus_1)
next
  assume "position = 0"
  moreover have "\<not> (- 1 :: size_t) < size_of cs" by simp
  then have "getNextFocus_loop cs (- 1) None (- 1) = Some (Inr None)" by (rule loop_stop)
  ultimately show "getNextFocus (Box p ud ROW cs dfi) LEFT cur = Some (Inr None)"
    and "getNextFocus (Box p ud COLUMN cs dfi) UP cur = Some (Inr None)"
    using assms(1) by simp_all
qed

theorem getNextFocus_terminates_in_bounds_witness:
  "parentUserdata (View 2 (Some 0) (Some 2)) = Some 0
   \<and> (0 :: size_t) < size_of [View 2 (Some 0) (Some 2), View 3 (Some 1) None]
   \<and> (\<exists>r. getNextFocus (Box 1 None ROW [View 2 (Some 0) (Some 2), View 3 (Some 1) None] 0)
          LEFT (View 2 (Some 0) (Some 2)) = Some (Inr r))
   \<and> getNextFocus (Box 1 None ROW [View 2 (Some 0) (Some 2), View 3 (Some 1) None] 0)
          LEFT (View 2 (Some 0) (Some 2)) = Some (Inr None)"
proof -
  have h1: "parentUserdata (View 2 (Some 0) (Some 2)) = Some 0" by simp
  have h2: "(0 :: size_t) < size_of [View 2 (Some 0) (Some 2), View 3 (Some 1) None]"
    by (simp add: size_of_def)
  from getNextFocus_terminates_in_bounds [OF h1 h2, of 1 None ROW 0 LEFT] h1 h2
  show ?thesis by blast
qed

text \<open>
  C4. In a ROW box, when \<open>getNextFocus\<close> with direction RIGHT returns a view for the
  current child at index \<open>i\<close>, that view is the default focus of a child at an index
  strictly greater than \<open>i\<close>, namely of the first child after \<open>i\<close> that accepts focus.
\<close>

theorem getNextFocus_right_scans_forward:
  assumes "parentUserdata cur = Some i" and "i < size_of cs"
    and "getNextFocus (Box p ud ROW cs dfi) RIGHT cur = Some (Inr (Some v))"
  shows "\<exists>j. unat i < j \<and> j < length cs \<and> getDefaultFocus (cs ! j) = Some v
           \<and> (\<forall>k. unat i < k \<and> k < j \<longrightarrow> getDefaultFocus (cs ! k) = None)"
proof -
  have suc: "unat (i + 1) = Suc (unat i)" using assms(2) by (rule unat_succ)
  from assms(1,3) have "getNextFocus_loop cs 1 None (i + 1) = Some (Inr (Some v))"
    by simp
  with loop_forward [of cs "i + 1"] obtain j where
    "unat (i + 1) \<le> j" "j < length cs" "getDefaultFocus (cs ! j) = Some v"
    "\<forall>k. unat (i + 1) \<le> k \<and> k < j \<longrightarrow> getDefaultFocus (cs ! k) = None"
    by auto
  then show ?thesis unfolding suc by (intro exI [of _ j]) (simp add: Suc_le_eq)
qed

theorem getNextFocus_right_scans_forward_witness:
  "parentUserdata (View 2 (Some 0) (Some 2)) = Some 0
   \<and> (0 :: size_t) < size_of [View 2 (Some 0) (Some 2), View 3 (Some 1) None, View 4 (Some 2) (Some 4)]
   \<and> getNextFocus (Box 1 None ROW
         [View 2 (Some 0) (Some 2), View 3 (Some 1) None, View 4 (Some 2) (Some 4)] 0)
       RIGHT (View 2 (Some 0) (Some 2)) = Some (Inr (Some 4))
   \<and> (\<exists>j. unat (0 :: size_t) < j
          \<and> j < length [View 2 (Some 0) (Some 2), View 3 (Some 1) None, View 4 (Some 2) (Some 4)]
          \<and> getDefaultFocus
               ([View 2 (Some 0) (Some 2), View 3 (Some 1) None, View 4 (Some 2) (Some 4)] ! j) = Some 4)"
proof -
  have h1: "parentUserdata (View 2 (Some 0) (Some 2)) = Some 0" by simp
  have h2: "(0 :: size_t) < size_of [View 2 (Some 0) (Some 2), View 3 (Some 1) None, View 4 (Some 2) (Some 4)]"
    by (simp add: size_of_def)
  have h3: "getNextFocus (Box 1 None ROW
         [View 2 (Some 0) (Some 2), View 3 (Some 1) None, View 4 (Some 2) (Some 4)] 0)
       RIGHT (View 2 (Some 0) (Some 2)) = Some (Inr (Some 4))"
    by (simp add: getNextFocus_loop.simps size_of_def)
  from getNextFocus_right_scans_forward [OF h1 h2 h3] h1 h2 h3
  show ?thesis by blast
qed

lemma size_of_exact: "length cs < 2 ^ 64 \<Longrightarrow> unat (size_of cs) = length cs"
  by (simp add: size_of_def unat_of_nat)

lemma scan_first_accepting:
  assumes "length cs < 2 ^ 64"
  shows "getDefaultFocus_scan cs i = first_accepting (drop (unat i) (map getDefaultFocus cs))"
proof (induction "length cs - unat i" arbitrary: i rule: less_induct)
  case less
  have sz: "unat (size_of cs) = length cs" using assms by (rule size_of_exact)
  show ?case
  proof (cases "i < size_of cs")
    case False
    then have "length cs \<le> unat i" using sz by (simp add: word_less_nat_alt)
    with False show ?thesis by (simp add: getDefaultFocus_scan.simps)
  next
    case True
    then have lt: "unat i < length cs" by (rule size_of_bound)
    have suc: "unat (i + 1) = Suc (unat i)" using True by (rule unat_succ)
    have dropi: "drop (unat i) (map getDefaultFocus cs) =
        getDefaultFocus (cs ! unat i) # drop (unat (i + 1)) (map getDefaultFocus cs)"
      using lt unfolding suc by (simp add: Cons_nth_drop_Suc [symmetric])
    from lt suc have "length cs - unat (i + 1) < length cs - unat i" by simp
    from less [OF this] have
      "getDefaultFocus_scan cs (i + 1) = first_accepting (drop (unat (i + 1)) (map getDefaultFocus cs))" .
    with True dropi show ?thesis
      by (simp add: getDefaultFocus_scan.simps [of cs i] split: option.splits)
  qed
qed

lemma box_default_first_accepting:
  assumes "length cs < 2 ^ 64"
  shows "getDefaultFocus (Box p ud ax cs 0) = first_accepting (map getDefaultFocus cs)"
proof (cases cs)
  case Nil
  then show ?thesis by (simp add: getDefaultFocus_scan.simps size_of_def)
next
  case (Cons c cs')
  have scan: "getDefaultFocus_scan cs 0 = first_accepting (map getDefaultFocus cs)"
    using scan_first_accepting [OF assms, of 0] by simp
  show ?thesis
  proof (cases "(0 :: size_t) < size_of cs")
    case True
    with scan Cons show ?thesis by (simp split: option.splits)
  next
    case False
    with scan show ?thesis by simp
  qed
qed

lemma getDefaultFocus_setParent: "getDefaultFocus (setParent v ud') = getDefaultFocus v"
  by (cases v) simp_all

lemma addView_fold:
  "\<exists>cs'. foldl addView (Box p ud ax cs0 dfi) vs = Box p ud ax (cs0 @ cs') dfi
         \<and> map getDefaultFocus cs' = map getDefaultFocus vs"
proof (induction vs arbitrary: cs0)
  case Nil
  show ?case by simp
next
  case (Cons v vs)
  from Cons [of "cs0 @ [setParent v (Some (size_of cs0))]"] obtain cs' where
    "foldl addView (Box p ud ax (cs0 @ [setParent v (Some (size_of cs0))]) dfi) vs =
       Box p ud ax ((cs0 @ [setParent v (Some (size_of cs0))]) @ cs') dfi"
    and "map getDefaultFocus cs' = map getDefaultFocus vs"
    by blast
  then show ?case
    by (intro exI [of _ "setParent v (Some (size_of cs0)) # cs'"])
       (simp add: getDefaultFocus_setParent)
qed

lemma first_accepting_Some:
  "j < length rs \<Longrightarrow> rs ! j = Some v \<Longrightarrow> (\<forall>k<j. rs ! k = None) \<Longrightarrow> first_accepting rs = Some v"
proof (induction rs arbitrary: j)
  case Nil
  then show ?case by simp
next
  case (Cons r rs)
  show ?case
  proof (cases j)
    case 0
    with Cons.prems show ?thesis by simp
  next
    case (Suc j')
    with Cons.prems have "r = None" by auto
    moreover have "first_accepting rs = Some v"
    proof (rule Cons.IH [of j'])
      show "j' < length rs" using Cons.prems Suc by simp
      show "rs ! j' = Some v" using Cons.prems Suc by simp
      show "\<forall>k<j'. rs ! k = None"
      proof (intro allI impI)
        fix k assume "k < j'"
        then have "Suc k < j" using Suc by simp
        with Cons.prems(3) have "(r # rs) ! Suc k = None" by blast
        then show "rs ! k = None" by simp
      qed
    qed
    ultimately show ?thesis by simp
  qed
qed

lemma first_accepting_None:
  "(\<forall>j<length rs. rs ! j = None) \<Longrightarrow> first_accepting rs = None"
proof (induction rs)
  case Nil
  show ?case by simp
next
  case (Cons r rs)
  from Cons.prems have "r = None" by auto
  moreover have "\<forall>j<length rs. rs ! j = None"
  proof (intro allI impI)
    fix j assume "j < length rs"
    then have "Suc j < length (r # rs)" by simp
    with Cons.prems have "(r # rs) ! Suc j = None" by blast
    then show "rs ! j = None" by simp
  qed
  ultimately show ?case using Cons.IH by simp
qed

text \<open>
  C3. A box built by adding the children \<open>cs\<close> in order (so that its default focused
  index still has its initial value 0) answers \<open>getDefaultFocus\<close> with the answer of the
  first child, in insertion order, whose own \<open>getDefaultFocus\<close> is not none; when every
  child declines, the answer is none. The vector holds fewer than \<open>2^64\<close> children.
\<close>

theorem getDefaultFocus_first_child:
  assumes "length cs < 2 ^ 64"
  shows "(\<forall>j v. j < length cs \<and> getDefaultFocus (cs ! j) = Some v
               \<and> (\<forall>k<j. getDefaultFocus (cs ! k) = None)
            \<longrightarrow> getDefaultFocus (foldl addView (new_Box p ax) cs) = Some v)
       \<and> ((\<forall>j<length cs. getDefaultFocus (cs ! j) = None)
            \<longrightarrow> getDefaultFocus (foldl addView (new_Box p ax) cs) = None)"
proof -
  from addView_fold [of p None ax "[]" 0 cs] obtain cs' where
    built: "foldl addView (new_Box p ax) cs = Box p None ax cs' 0"
    and same: "map getDefaultFocus cs' = map getDefaultFocus cs"
    by (auto simp: new_Box_def)
  from same have "length cs' = length cs" by (rule map_eq_imp_length_eq)
  with assms have len: "length cs' < 2 ^ 64" by simp
  have "getDefaultFocus (foldl addView (new_Box p ax) cs) = getDefaultFocus (Box p None ax cs' 0)"
    by (simp only: built)
  also have "\<dots> = first_accepting (map getDefaultFocus cs')"
    using len by (rule box_default_first_accepting)
  also have "\<dots> = first_accepting (map getDefaultFocus cs)"
    by (simp only: same)
  finally have res: "getDefaultFocus (foldl addView (new_Box p ax) cs) =
      first_accepting (map getDefaultFocus cs)" .
  show ?thesis
  proof (intro conjI allI impI)
    fix j v
    assume a: "j < length cs \<and> getDefaultFocus (cs ! j) = Some v
      \<and> (\<forall>k<j. getDefaultFocus (cs ! k) = None)"
    have "first_accepting (map getDefaultFocus cs) = Some v"
    proof (rule first_accepting_Some [of j])
      show "j < length (map getDefaultFocus cs)" using a by simp
      show "map getDefaultFocus cs ! j = Some v" using a by simp
      show "\<forall>k<j. map getDefaultFocus cs ! k = None" using a by simp
    qed
    with res show "getDefaultFocus (foldl addView (new_Box p ax) cs) = Some v" by simp
  next
    assume "\<forall>j<length cs. getDefaultFocus (cs ! j) = None"
    then have "first_accepting (map getDefaultFocus cs) = None"
      by (intro first_accepting_None) simp
    with res show "getDefaultFocus (foldl addView (new_Box p ax) cs) = None" by simp
  qed
qed

theorem getDefaultFocus_first_child_witness:
  "length [View 2 None None, View 3 None (Some 3), View 4 None (Some 4)] < 2 ^ 64
   \<and> getDefaultFocus ([View 2 None None, View 3 None (Some 3), View 4 None (Some 4)] ! 1) = Some 3
   \<and> getDefaultFocus ([View 2 None None, View 3 None (Some 3), View 4 None (Some 4)] ! 0) = None
   \<and> getDefaultFocus (foldl addView (new_Box 1 ROW)
        [View 2 None None, View 3 None (Some 3), View 4 None (Some 4)]) = Some 3
   \<and> getDefaultFocus (foldl addView (new_Box 1 COLUMN) [View 2 None None, View 5 None None]) = None"
proof -
  have h: "length [View 2 None None, View 3 None (Some 3), View 4 None (Some 4)] < 2 ^ 64"
    by simp
  have h': "length [View 2 None None, View 5 None None] < 2 ^ 64"
    by simp
  have a: "(1::nat) < length [View 2 None None, View 3 None (Some 3), View 4 None (Some 4)]
      \<and> getDefaultFocus ([View 2 None None, View 3 None (Some 3), View 4 None (Some 4)] ! 1) = Some 3
      \<and> (\<forall>k<(1::nat). getDefaultFocus ([View 2 None None, View 3 None (Some 3), View 4 None (Some 4)] ! k) = None)"
    by simp
  have b: "\<forall>j<length [View 2 None None, View 5 None None].
      getDefaultFocus ([View 2 None None, View 5 None None] ! j) = None"
    by (simp add: less_Suc_eq)
  from getDefaultFocus_first_child [OF h, of 1 ROW] a
  have "getDefaultFocus (foldl addView (new_Box 1 ROW)
        [View 2 None None, View 3 None (Some 3), View 4 None (Some 4)]) = Some 3"
    by blast
  moreover from getDefaultFocus_first_child [OF h', of 1 COLUMN] b
  have "getDefaultFocus (foldl addView (new_Box 1 COLUMN) [View 2 None None, View 5 None None]) = None"
    by blast
  ultimately show ?thesis using h a by simp
qed

section \<open>The order of drawing\<close>

text \<open>
  C7 (as amended). \<open>frame\<close> does nothing when the view is not VISIBLE. When it is VISIBLE
  and moreover \<open>alpha > 0\<close> and \<open>collapseState \<noteq> 0\<close>, it performs, in this order: save,
  theme override (if one is set), background, highlight background (if the highlight alpha
  is positive and the view enables it), save and height scissor (if partially collapsed),
  the draw hook, highlight foreground (if the highlight alpha is positive), borders,
  restore of the scissor, restore of the theme, restore. When it is VISIBLE but
  \<open>alpha \<le> 0\<close> or \<open>collapseState = 0\<close>, nothing is drawn: only the save, the theme override
  and its restoration, and the restore happen.
\<close>

theorem frame_order:
  "(visibility v \<noteq> VISIBLE \<longrightarrow> frame v ctx = ctx)
   \<and> (visibility v = VISIBLE \<and> alpha v > 0 \<and> collapseState v \<noteq> 0 \<longrightarrow>
        effects (frame v ctx) = effects ctx
          @ [NvgSave]
          @ (case themeOverride v of Some t \<Rightarrow> [SetTheme t] | None \<Rightarrow> [])
          @ [DrawBackground]
          @ (if highlightAlpha v > 0 \<and> isHighlightBackgroundEnabled v
             then [DrawHighlight (case themeOverride v of Some t \<Rightarrow> t | None \<Rightarrow> theme ctx)
                     (highlightAlpha v) True]
             else [])
          @ (if collapseState v < 1
             then [NvgSave, NvgIntersectScissor (getX v) (getY v) (getWidth v)
                              (getHeight v * collapseState v)]
             else [])
          @ [Draw (getX v) (getY v) (getWidth v) (getHeight v)]
          @ (if highlightAlpha v > 0
             then [DrawHighlight (case themeOverride v of Some t \<Rightarrow> t | None \<Rightarrow> theme ctx)
                     (highlightAlpha v) False]
             else [])
          @ [DrawBorder (getX v) (getY v) (getWidth v) (getHeight v)]
          @ (if collapseState v < 1 then [NvgRestore] else [])
          @ (case themeOverride v of Some t \<Rightarrow> [SetTheme (theme ctx)] | None \<Rightarrow> [])
          @ [NvgRestore]
        \<and> theme (frame v ctx) = theme ctx)
   \<and> (visibility v = VISIBLE \<and> \<not> (alpha v > 0 \<and> collapseState v \<noteq> 0) \<longrightarrow>
        effects (frame v ctx) = effects ctx
          @ [NvgSave]
          @ (case themeOverride v of Some t \<Rightarrow> [SetTheme t, SetTheme (theme ctx)] | None \<Rightarrow> [])
          @ [NvgRestore])"
  by (cases "themeOverride v") (simp_all add: frame_def emit_def set_theme_def Let_def)

theorem frame_order_witness:
  "effects (frame \<lparr>visibility = VISIBLE, themeOverride = Some 3, alpha = 1,
       collapseState = 1 / 2, highlightAlpha = 1, isHighlightBackgroundEnabled = True,
       getX = 0, getY = 0, getWidth = 100, getHeight = 50\<rparr> \<lparr>theme = 0, effects = []\<rparr>)
   = [NvgSave, SetTheme 3, DrawBackground, DrawHighlight 3 1 True, NvgSave,
      NvgIntersectScissor 0 0 100 25, Draw 0 0 100 50, DrawHighlight 3 1 False,
      DrawBorder 0 0 100 50, NvgRestore, SetTheme 0, NvgRestore]"
  using frame_order [of "\<lparr>visibility = VISIBLE, themeOverride = Some 3, alpha = 1,
       collapseState = 1 / 2, highlightAlpha = 1, isHighlightBackgroundEnabled = True,
       getX = 0, getY = 0, getWidth = 100, getHeight = 50\<rparr>" "\<lparr>theme = 0, effects = []\<rparr>"]
  by simp

text \<open>
  Against C7 as stated. A VISIBLE view with \<open>alpha = 0\<close>: \<open>frame\<close> draws nothing,
  neither the background nor the draw hook nor the borders.
\<close>

theorem frame_transparent_counterexample:
  "visibility \<lparr>visibility = VISIBLE, themeOverride = None, alpha = 0,
       collapseState = 1, highlightAlpha = 1, isHighlightBackgroundEnabled = True,
       getX = 0, getY = 0, getWidth = 100, getHeight = 50\<rparr> = VISIBLE
   \<and> effects (frame \<lparr>visibility = VISIBLE, themeOverride = None, alpha = 0,
       collapseState = 1, highlightAlpha = 1, isHighlightBackgroundEnabled = True,
       getX = 0, getY = 0, getWidth = 100, getHeight = 50\<rparr> \<lparr>theme = 0, effects = []\<rparr>)
     = [NvgSave, NvgRestore]"
  by (simp add: frame_def emit_def)

section \<open>Scrolling\<close>


lemma willAppear_bottomY:
  "bottomY (ScrollingBox_willAppear resetState s) =
     getScrollingAreaTopBoundary (ScrollingBox_willAppear resetState s)
     + getScrollingAreaHeight (ScrollingBox_willAppear resetState s)"
  by (simp add: ScrollingBox_willAppear_def prebakeScrolling_def startScrolling_def Let_def
      getScrollingAreaTopBoundary_def getScrollingAreaHeight_def)

lemma prebakeScrolling_bottomY:
  "bottomY (prebakeScrolling s) =
     getScrollingAreaTopBoundary (prebakeScrolling s) + getScrollingAreaHeight (prebakeScrolling s)"
  by (simp add: prebakeScrolling_def Let_def getScrollingAreaTopBoundary_def
      getScrollingAreaHeight_def)



lemma stacked_span:
  "cs \<noteq> [] \<Longrightarrow> stacked cs \<Longrightarrow>
   layoutTop (last cs) + layoutHeight (last cs) + ntz (layoutMarginBottom (last cs))
     - layoutTop (hd cs)
   = sum_list (map layoutHeight cs)
     + sum_list (map (\<lambda>c. ntz (layoutMarginBottom c)) cs)
     + sum_list (map (\<lambda>c. ntz (layoutMarginTop c)) (tl cs))"
proof (induction cs rule: stacked.induct)
  case 1
  then show ?case by simp
next
  case (2 c)
  show ?case by simp
next
  case (3 a b cs)
  from "3.prems" have st: "stacked (b # cs)"
    and tb: "layoutTop b = layoutTop a + layoutHeight a + ntz (layoutMarginBottom a)
                    + ntz (layoutMarginTop b)"
    by simp_all
  from "3.IH" [OF _ st] have
    "layoutTop (last (b # cs)) + layoutHeight (last (b # cs))
       + ntz (layoutMarginBottom (last (b # cs))) - layoutTop b
     = sum_list (map layoutHeight (b # cs))
       + sum_list (map (\<lambda>c. ntz (layoutMarginBottom c)) (b # cs))
       + sum_list (map (\<lambda>c. ntz (layoutMarginTop c)) cs)"
    by simp
  with tb show ?case by simp
qed

lemma getContentHeight_span:
  "flatBoxChildren s \<noteq> [] \<Longrightarrow>
   getContentHeight s =
     layoutTop (last (flatBoxChildren s)) + layoutHeight (last (flatBoxChildren s))
       + ntz (layoutMarginBottom (last (flatBoxChildren s)))
       - layoutTop (hd (flatBoxChildren s))"
  by (simp add: getContentHeight_def Let_def last_conv_nth hd_conv_nth)

text \<open>
  C6 (as amended). With at least one child, the content height is the span from the first
  child's layout top (which lies below that child's top margin, so the margin is not part
  of the span) to the last child's bottom with its bottom margin; for children stacked
  with zero spacing it is the sum of the heights, plus every bottom margin (the last
  child's included), plus the top margin of every child but the first.
\<close>

theorem getContentHeight_stacked:
  assumes "flatBoxChildren s \<noteq> []" and "stacked (flatBoxChildren s)"
  shows "getContentHeight s =
           layoutTop (last (flatBoxChildren s)) + layoutHeight (last (flatBoxChildren s))
             + ntz (layoutMarginBottom (last (flatBoxChildren s)))
             - layoutTop (hd (flatBoxChildren s))
       \<and> getContentHeight s =
           sum_list (map layoutHeight (flatBoxChildren s))
           + sum_list (map (\<lambda>c. ntz (layoutMarginBottom c)) (flatBoxChildren s))
           + sum_list (map (\<lambda>c. ntz (layoutMarginTop c)) (tl (flatBoxChildren s)))"
  using getContentHeight_span [OF assms(1)] stacked_span [OF assms] by simp

theorem getContentHeight_stacked_witness:
  "flatBoxChildren two_children_box \<noteq> []
   \<and> stacked (flatBoxChildren two_children_box)
   \<and> getContentHeight two_children_box = 95"
proof -
  have h1: "flatBoxChildren two_children_box \<noteq> []" by (simp add: two_children_box_def)
  have h2: "stacked (flatBoxChildren two_children_box)" by (simp add: two_children_box_def)
  from getContentHeight_stacked [OF h1 h2]
  have "getContentHeight two_children_box =
      sum_list (map layoutHeight (flatBoxChildren two_children_box))
      + sum_list (map (\<lambda>c. ntz (layoutMarginBottom c)) (flatBoxChildren two_children_box))
      + sum_list (map (\<lambda>c. ntz (layoutMarginTop c)) (tl (flatBoxChildren two_children_box)))"
    by blast
  then have "getContentHeight two_children_box = 95" by (simp add: two_children_box_def)
  with h1 h2 show ?thesis by simp
qed

text \<open>
  Against C6 as stated. One child with a top margin of 10 (so its layout top is 10),
  height 50 and bottom margin 5: the content height is 55, while the span that includes
  the top margin is 65 and the sum of heights and margins between children is 50.
\<close>

theorem getContentHeight_top_margin_counterexample:
  "getContentHeight one_child_box = 55
   \<and> span_with_margins (flatBoxChildren one_child_box) = 65
   \<and> heights_and_margins_between (flatBoxChildren one_child_box) = 50"
  by (simp add: one_child_box_def getContentHeight_def span_with_margins_def
      heights_and_margins_between_def)

section \<open>The legacy box layout\<close>

text \<open>
  C8 (as amended). When the focus is remembered, a child gaining focus stores its position
  as the default focus index, and \<open>willDisappear\<close> resets that index to the originally
  configured one. When it is not remembered, neither of the two changes the index.
  \<open>willAppear\<close> never changes it.
\<close>

theorem willDisappear_default_focus:
  "defaultFocusedIndex (willDisappear resetState b) =
     (if rememberFocus b then originalDefaultFocus b else defaultFocusedIndex b)
   \<and> defaultFocusedIndex (willAppear resetState b) = defaultFocusedIndex b
   \<and> onChildFocusGained (Some position) b =
       Inr (if rememberFocus b
            then b\<lparr>childFocused := True, defaultFocusedIndex := of_nat position\<rparr>
            else b\<lparr>childFocused := True\<rparr>)"
  by (simp add: willDisappear_def willAppear_def onChildFocusGained_def Let_def)

theorem willDisappear_default_focus_witness:
  "defaultFocusedIndex (willDisappear True remembering_layout) = 0
   \<and> onChildFocusGained (Some 2) remembering_layout =
       Inr (remembering_layout\<lparr>childFocused := True, defaultFocusedIndex := 2\<rparr>)"
  using willDisappear_default_focus [of True remembering_layout 2]
  by (simp add: remembering_layout_def setRememberFocus_def addView_layout_def new_BoxLayout_def)

text \<open>
  Against C8 as stated. A layout that remembers the focus, configured with default focus 0:
  after its third child gained focus the index is 2, and \<open>willDisappear\<close> puts it back
  to 0. With remembering switched off afterwards, the index stays 2 across disappearance
  and reappearance instead of returning to the configured 0.
\<close>

theorem willDisappear_forgets_counterexample:
  "rememberFocus (remembering_layout\<lparr>childFocused := True, defaultFocusedIndex := 2\<rparr>)
   \<and> onChildFocusGained (Some 2) remembering_layout =
       Inr (remembering_layout\<lparr>childFocused := True, defaultFocusedIndex := 2\<rparr>)
   \<and> defaultFocusedIndex
       (willDisappear False (remembering_layout\<lparr>childFocused := True, defaultFocusedIndex := 2\<rparr>)) = 0
   \<and> originalDefaultFocus remembering_layout = 0
   \<and> defaultFocusedIndex
       (willAppear False (willDisappear False
         (setRememberFocus False
           (remembering_layout\<lparr>childFocused := True, defaultFocusedIndex := 2\<rparr>)))) = 2"
  by (simp add: remembering_layout_def setRememberFocus_def addView_layout_def new_BoxLayout_def
      onChildFocusGained_def willDisappear_def willAppear_def Let_def)

lemma getHeight_view_expanded:
  "getHeight_view True \<lparr>viewX = vx, viewY = vy, viewWidth = w, viewHeight = 20,
      viewCollapseState = 1, lifecycle = l\<rparr> = Some 20"
  by (simp add: getHeight_view_def float_to_unsigned_def truncate_towards_zero_def)

text \<open>
  C10. The gravity pass compares and subtracts the two right edges as \<open>unsigned\<close> sums, so
  that an edge left of zero counts as a very large one. A layout at \<open>x = -110\<close> of width
  100 with two children of width 60: after the loop the children stand at \<open>-110\<close> and
  \<open>-50\<close>, the last one ends at 10, beyond the layout's right edge at \<open>-10\<close>; the pass
  nevertheless moves both children, by 20 to the left. A layout at \<open>x = 0\<close> of width 100
  with right margin 10, a child of width 150 and a fill child: the fill child's width
  wraps around, the children overflow the layout, and the pass moves both by 10.
\<close>

lemma layout_gravity_shift:
  assumes "gravity b = GRAVITY_RIGHT" and "layoutChildren b \<noteq> []"
    and "lastViewRight b \<le> ourRight b"
  shows "layout_gravity hk b =
           map_option (\<lambda>cs. b\<lparr>layoutChildren := cs\<rparr>)
             (shift_children hk (ourRight b - lastViewRight b) (layoutChildren b))"
  using assms by (simp add: layout_gravity_def Let_def)

lemma shift_two_children:
  "shift_children plain_hooks d
     [\<lparr>childView = \<lparr>viewX = x1, viewY = 0, viewWidth = w1, viewHeight = 20,
                     viewCollapseState = 1, lifecycle = []\<rparr>, childFill = f1\<rparr>,
      \<lparr>childView = \<lparr>viewX = x2, viewY = 0, viewWidth = w2, viewHeight = 20,
                     viewCollapseState = 1, lifecycle = []\<rparr>, childFill = f2\<rparr>]
   = Some
     [\<lparr>childView = \<lparr>viewX = x1 + d, viewY = 0, viewWidth = w1, viewHeight = 20,
                     viewCollapseState = 1, lifecycle = []\<rparr>, childFill = f1\<rparr>,
      \<lparr>childView = \<lparr>viewX = x2 + d, viewY = 0, viewWidth = w2, viewHeight = 20,
                     viewCollapseState = 1, lifecycle = []\<rparr>, childFill = f2\<rparr>]"
  by (simp add: getHeight_view_expanded plain_hooks_def setBoundaries_def Let_def)

theorem layout_gravity_moves_overflowing_children:
  "positions (layout_row_pass plain_hooks offscreen_layout) = [- 110, - 50]
   \<and> sint (lastViewRight (layout_row_pass plain_hooks offscreen_layout)) = 10
   \<and> sint (ourRight (layout_row_pass plain_hooks offscreen_layout)) = - 10
   \<and> map_option positions (layout_horizontal plain_hooks offscreen_layout)
       = Some [- 130, - 70]
   \<and> positions (layout_row_pass plain_hooks fill_overflow_layout) = [0, 150]
   \<and> widths (layout_row_pass plain_hooks fill_overflow_layout) = [150, 2 ^ 32 - 60]
   \<and> unat (ourRight (layout_row_pass plain_hooks fill_overflow_layout)) = 100
   \<and> map_option positions (layout_horizontal plain_hooks fill_overflow_layout)
       = Some [10, 160]"
proof -
  define A where "A = layout_row_pass plain_hooks offscreen_layout"
  define B where "B = layout_row_pass plain_hooks fill_overflow_layout"
  have rowA: "layoutChildren A =
      [\<lparr>childView = \<lparr>viewX = - 110, viewY = 0, viewWidth = 60, viewHeight = 20,
                      viewCollapseState = 1, lifecycle = []\<rparr>, childFill = False\<rparr>,
       \<lparr>childView = \<lparr>viewX = - 50, viewY = 0, viewWidth = 60, viewHeight = 20,
                      viewCollapseState = 1, lifecycle = []\<rparr>, childFill = False\<rparr>]"
    by (simp add: A_def layout_row_pass_def offscreen_layout_def plain_hooks_def
        setBoundaries_def isCollapsed_def Let_def)
  have gA: "gravity A = GRAVITY_RIGHT"
    by (simp add: A_def layout_row_pass_def offscreen_layout_def)
  have lA: "lastViewRight A = 10"
    by (simp add: lastViewRight_def rowA)
  have oA: "ourRight A = - 10"
    by (simp add: ourRight_def A_def layout_row_pass_def offscreen_layout_def)
  have leA: "lastViewRight A \<le> ourRight A" by (simp add: lA oA)
  have neA: "layoutChildren A \<noteq> []" by (simp add: rowA)
  have dA: "ourRight A - lastViewRight A = - 20" by (simp add: lA oA)
  have finA: "map_option positions (layout_horizontal plain_hooks offscreen_layout)
       = Some [- 130, - 70]"
    unfolding layout_horizontal_def A_def [symmetric]
      layout_gravity_shift [OF gA neA leA] dA rowA shift_two_children
    by (simp add: positions_def)
  have rowB: "layoutChildren B =
      [\<lparr>childView = \<lparr>viewX = 0, viewY = 0, viewWidth = 150, viewHeight = 20,
                      viewCollapseState = 1, lifecycle = []\<rparr>, childFill = False\<rparr>,
       \<lparr>childView = \<lparr>viewX = 150, viewY = 0, viewWidth = - 60, viewHeight = 20,
                      viewCollapseState = 1, lifecycle = []\<rparr>, childFill = True\<rparr>]"
    by (simp add: B_def layout_row_pass_def fill_overflow_layout_def plain_hooks_def
        setBoundaries_def isCollapsed_def Let_def)
  have gB: "gravity B = GRAVITY_RIGHT"
    by (simp add: B_def layout_row_pass_def fill_overflow_layout_def)
  have lB: "lastViewRight B = 90"
    by (simp add: lastViewRight_def rowB)
  have oB: "ourRight B = 100"
    by (simp add: ourRight_def B_def layout_row_pass_def fill_overflow_layout_def)
  have leB: "lastViewRight B \<le> ourRight B" by (simp add: lB oB)
  have neB: "layoutChildren B \<noteq> []" by (simp add: rowB)
  have dB: "ourRight B - lastViewRight B = 10" by (simp add: lB oB)
  have finB: "map_option positions (layout_horizontal plain_hooks fill_overflow_layout)
       = Some [10, 160]"
    unfolding layout_horizontal_def B_def [symmetric]
      layout_gravity_shift [OF gB neB leB] dB rowB shift_two_children
    by (simp add: positions_def)
  have wB: "unat (- 60 :: c_unsigned) = 2 ^ 32 - 60" by simp
  have pA: "positions A = [- 110, - 50]" by (simp add: positions_def rowA)
  have pB: "positions B = [0, 150]" by (simp add: positions_def rowB)
  have wsB: "widths B = [150, 2 ^ 32 - 60]" by (simp add: widths_def rowB)
  have sA: "sint (lastViewRight A) = 10" "sint (ourRight A) = - 10" by (simp_all add: lA oA)
  have uB: "unat (ourRight B) = 100" by (simp add: oB)
  from pA sA finA pB wsB uB finB show ?thesis
    unfolding A_def B_def by (intro conjI)
qed

section \<open>XML attribute values\<close>

lemmas stof_eval = stof_def isspace_def isdigit_def digits_value_def digit_def
  fraction_value_def stof_exponent_def Let_def

lemma percentage_channel_raw:
  assumes "name \<in> percentageAttributes reg" and "name \<notin> stringAttributes reg"
  shows "applyXMLAttribute style theme' reg name ''50%'' =
           Inr (True, Some (PercentageAttribute name 50))"
proof -
  have "\<not> endsWith ''50%'' ''px''" by (simp add: endsWith_def string_find_def)
  moreover have "endsWith ''50%'' ''%''" by (simp add: endsWith_def string_find_def)
  moreover have "stof ''50'' = Value 50" by (simp add: stof_eval)
  ultimately show ?thesis using assms by (simp add: applyXMLAttribute_def)
qed

text \<open>
  C1. On a freshly constructed view, the value \<open>50%\<close> for \<open>width\<close> calls the percentage
  handler with 50, the number in front of the sign, not with 0.5. The value \<open>10px\<close> calls
  the float handler with 10; \<open>#FF0000\<close> for \<open>borderColor\<close> gives opaque red and
  \<open>#FF000080\<close> red with alpha \<open>128 / 255\<close>.
\<close>

theorem applyXMLAttribute_percentage_is_raw:
  "applyXMLAttribute style theme' new_View_registry ''width'' ''50%'' =
     Inr (True, Some (PercentageAttribute ''width'' 50))
   \<and> applyXMLAttribute style theme' new_View_registry ''width'' ''50%'' \<noteq>
     Inr (True, Some (PercentageAttribute ''width'' (1 / 2)))
   \<and> applyXMLAttribute style theme' new_View_registry ''width'' ''10px'' =
     Inr (True, Some (FloatAttribute ''width'' 10))
   \<and> applyXMLAttribute style theme' new_View_registry ''borderColor'' ''#FF0000'' =
     Inr (True, Some (ColorAttribute ''borderColor'' (NVGcolor 1 0 0 1)))
   \<and> applyXMLAttribute style theme' new_View_registry ''borderColor'' ''#FF000080'' =
     Inr (True, Some (ColorAttribute ''borderColor'' (NVGcolor 1 0 0 (128 / 255))))"
proof -
  have reg: "''width'' \<in> percentageAttributes new_View_registry"
    "''width'' \<in> floatAttributes new_View_registry"
    "''width'' \<notin> stringAttributes new_View_registry"
    "''borderColor'' \<in> colorAttributes new_View_registry"
    "''borderColor'' \<notin> stringAttributes new_View_registry"
    by (simp_all add: new_View_registry_def registerCommonAttributes_def empty_registry_def
        registerFloatXMLAttribute_def registerPercentageXMLAttribute_def
        registerAutoXMLAttribute_def registerStringXMLAttribute_def
        registerColorXMLAttribute_def)
  have pct: "applyXMLAttribute style theme' new_View_registry ''width'' ''50%'' =
      Inr (True, Some (PercentageAttribute ''width'' 50))"
    using reg(1,3) by (rule percentage_channel_raw)
  have px: "applyXMLAttribute style theme' new_View_registry ''width'' ''10px'' =
      Inr (True, Some (FloatAttribute ''width'' 10))"
  proof -
    have "endsWith ''10px'' ''px''" by (simp add: endsWith_def string_find_def)
    moreover have "stof ''10'' = Value 10" by (simp add: stof_eval)
    ultimately show ?thesis using reg(2,3) by (simp add: applyXMLAttribute_def)
  qed
  have red: "applyXMLAttribute style theme' new_View_registry ''borderColor'' ''#FF0000'' =
      Inr (True, Some (ColorAttribute ''borderColor'' (NVGcolor 1 0 0 1)))"
  proof -
    have "\<not> endsWith ''#FF0000'' ''px''" "\<not> endsWith ''#FF0000'' ''%''"
      by (simp_all add: endsWith_def string_find_def)
    moreover have "sscanf_fields 3 ''FF0000'' = Some [255, 0, 0]"
      by (simp add: scan_hhx_def hexval_def isspace_def numeral_3_eq_3)
    ultimately show ?thesis
      using reg(4,5) by (simp add: applyXMLAttribute_def startsWith_def nvgRGB_def nvgRGBA_def)
  qed
  have half: "applyXMLAttribute style theme' new_View_registry ''borderColor'' ''#FF000080'' =
      Inr (True, Some (ColorAttribute ''borderColor'' (NVGcolor 1 0 0 (128 / 255))))"
  proof -
    have "\<not> endsWith ''#FF000080'' ''px''" "\<not> endsWith ''#FF000080'' ''%''"
      by (simp_all add: endsWith_def string_find_def)
    moreover have "sscanf_fields 4 ''FF000080'' = Some [255, 0, 0, 128]"
      by (simp add: scan_hhx_def hexval_def isspace_def eval_nat_numeral)
    ultimately show ?thesis
      using reg(4,5) by (simp add: applyXMLAttribute_def startsWith_def nvgRGBA_def)
  qed
  from pct px red half show ?thesis by simp
qed

end
